theory Spec2Isabelle
  imports Main
begin

section \<open>Python strings\<close>

text \<open>
  A Python \<open>str\<close> is a sequence of Unicode code points. A code point is modelled as a
  natural number and a string as the list of its code points, so that \<open>length\<close> counts
  what Python's \<open>len\<close> counts and each accented letter of the program's literals
  (\<open>U+00E9\<close> in the Boleto date label, \<open>U+00E1\<close>, \<open>U+00EA\<close>, \<open>U+00E7\<close>, \<open>U+00F5\<close>,
  \<open>U+00E3\<close>) is one element, as the source file (UTF-8, precomposed letters) has it.
  \<open>lit\<close> turns an ASCII literal into such a string.
\<close>

type_synonym codepoint = nat
type_synonym str = "codepoint list"

definition lit :: "string \<Rightarrow> str" where
  "lit s = map of_char s"

text \<open>
  \<open>str.isspace\<close> for one character. The same table decides \<open>\s\<close> in a \<open>re\<close> pattern over
  \<open>str\<close>, the separators of \<open>str.split()\<close> and what \<open>str.strip()\<close> removes.
\<close>

definition isspace :: "codepoint \<Rightarrow> bool" where
  "isspace c \<longleftrightarrow>
     (0x09 \<le> c \<and> c \<le> 0x0D) \<or> (0x1C \<le> c \<and> c \<le> 0x20) \<or> c = 0x85 \<or> c = 0xA0 \<or>
     c = 0x1680 \<or> (0x2000 \<le> c \<and> c \<le> 0x200A) \<or> c = 0x2028 \<or> c = 0x2029 \<or>
     c = 0x202F \<or> c = 0x205F \<or> c = 0x3000"

text \<open>
  \<open>str.isdecimal\<close> for one character, which is what \<open>\d\<close> matches in a pattern over
  \<open>str\<close>: the code points of general category Nd. They come in runs of ten; the list
  holds the first code point of every run (Unicode 14.0, the table of CPython 3.11).
\<close>

definition decimal_runs :: "codepoint list" where
  "decimal_runs =
    [0x30, 0x660, 0x6F0, 0x7C0, 0x966, 0x9E6, 0xA66, 0xAE6, 0xB66, 0xBE6, 0xC66, 0xCE6,
     0xD66, 0xDE6, 0xE50, 0xED0, 0xF20, 0x1040, 0x1090, 0x17E0, 0x1810, 0x1946, 0x19D0,
     0x1A80, 0x1A90, 0x1B50, 0x1BB0, 0x1C40, 0x1C50, 0xA620, 0xA8D0, 0xA900, 0xA9D0,
     0xA9F0, 0xAA50, 0xABF0, 0xFF10, 0x104A0, 0x10D30, 0x11066, 0x110F0, 0x11136,
     0x111D0, 0x112F0, 0x11450, 0x114D0, 0x11650, 0x116C0, 0x11730, 0x118E0, 0x11950,
     0x11C50, 0x11D50, 0x11DA0, 0x16A60, 0x16AC0, 0x16B50, 0x1D7CE, 0x1D7D8, 0x1D7E2,
     0x1D7EC, 0x1D7F6, 0x1E140, 0x1E2F0, 0x1E950, 0x1FBF0]"

definition isdecimal :: "codepoint \<Rightarrow> bool" where
  "isdecimal c \<longleftrightarrow> list_ex (\<lambda>lo. lo \<le> c \<and> c < lo + 10) decimal_runs"

text \<open>\<open>sub in texto\<close>: \<open>sub\<close> occurs in \<open>texto\<close> as a contiguous substring.\<close>

fun startswith :: "str \<Rightarrow> str \<Rightarrow> bool" where
  "startswith s [] = True"
| "startswith [] (p # ps) = False"
| "startswith (c # cs) (p # ps) = (c = p \<and> startswith cs ps)"

fun py_in :: "str \<Rightarrow> str \<Rightarrow> bool" where
  "py_in sub [] = (sub = [])"
| "py_in sub (c # cs) = (startswith (c # cs) sub \<or> py_in sub cs)"

text \<open>\<open>s.strip()\<close>, \<open>s.replace(a, b)\<close> for one-character \<open>a\<close> and \<open>b\<close>, \<open>s.split()\<close>
  and \<open>sep.join(ws)\<close>.\<close>

definition py_strip :: "str \<Rightarrow> str" where
  "py_strip s = rev (dropWhile isspace (rev (dropWhile isspace s)))"

definition py_replace :: "codepoint \<Rightarrow> codepoint \<Rightarrow> str \<Rightarrow> str" where
  "py_replace a b s = map (\<lambda>c. if c = a then b else c) s"

function py_split :: "str \<Rightarrow> str list" where
  "py_split s =
     (case dropWhile isspace s of
        [] \<Rightarrow> []
      | c # cs \<Rightarrow>
          takeWhile (\<lambda>x. \<not> isspace x) (c # cs) #
          py_split (dropWhile (\<lambda>x. \<not> isspace x) cs))"
  by pat_completeness auto
termination
proof (relation "measure length", goal_cases)
  case 1
  show ?case by simp
next
  case (2 s c cs)
  have "length (dropWhile (\<lambda>x. \<not> isspace x) cs) \<le> length cs"
    by (rule length_dropWhile_le)
  moreover have "length (c # cs) \<le> length s"
    using length_dropWhile_le [of isspace s] 2 by simp
  ultimately show ?case by simp
qed

fun py_join :: "str \<Rightarrow> str list \<Rightarrow> str" where
  "py_join sep [] = []"
| "py_join sep [w] = w"
| "py_join sep (w # v # ws) = w @ sep @ py_join sep (v # ws)"

section \<open>The regular expressions of the program\<close>

text \<open>
  The patterns passed to \<open>re.search\<close> use literals, the classes \<open>\s\<close>, \<open>\d\<close> and \<open>.\<close>,
  the greedy \<open>*\<close>, the lazy \<open>*?\<close> and \<open>+?\<close>, the counted \<open>{n}\<close> (all of them on a single
  class), one capturing group, a two-way non-capturing alternative and \<open>$\<close>. A pattern
  is the list of its items in order; the capturing group is bracketed by \<open>GroupOpen\<close>
  and \<open>GroupClose\<close>.
\<close>

datatype cclass = Space | Digit | Dot

datatype item =
    Lit str
  | Star cclass
  | LazyStar cclass
  | LazyPlus cclass
  | Rep nat cclass
  | GroupOpen
  | GroupClose
  | Alt "item list" "item list"
  | Dollar

text \<open>Without \<open>re.DOTALL\<close> the dot matches every character but the newline.\<close>

fun in_class :: "bool \<Rightarrow> cclass \<Rightarrow> codepoint \<Rightarrow> bool" where
  "in_class dotall Space c = isspace c"
| "in_class dotall Digit c = isdecimal c"
| "in_class dotall Dot c = (dotall \<or> c \<noteq> 0x0A)"

fun weight :: "item \<Rightarrow> nat" where
  "weight (Alt a b) = Suc (sum_list (map weight a) + sum_list (map weight b))"
| "weight (Rep n c) = Suc n"
| "weight (LazyPlus c) = 2"
| "weight _ = 1"

text \<open>
  \<open>rx dotall p s opn grp\<close> matches the pattern \<open>p\<close> at the start of \<open>s\<close> by backtracking,
  trying the alternatives in the order of Python's engine: a greedy star takes one more
  character before it tries the rest of the pattern, a lazy one tries the rest first,
  the left alternative goes before the right one. \<open>opn\<close> is the input that remained
  where the group opened and \<open>grp\<close> the text the group captured; the result is the
  captured text of the first way to match, or \<open>None\<close> when there is none. \<open>$\<close>
  (without \<open>re.MULTILINE\<close>) holds at the end of the text and before a final newline.
\<close>

function rx :: "bool \<Rightarrow> item list \<Rightarrow> str \<Rightarrow> str \<Rightarrow> str \<Rightarrow> str option" where
  "rx da [] s opn grp = Some grp"
| "rx da (Lit l # r) s opn grp =
     (if startswith s l then rx da r (drop (length l) s) opn grp else None)"
| "rx da (Star c # r) s opn grp =
     (case s of
        [] \<Rightarrow> rx da r s opn grp
      | x # xs \<Rightarrow>
          if in_class da c x then
            (case rx da (Star c # r) xs opn grp of
               Some g \<Rightarrow> Some g
             | None \<Rightarrow> rx da r s opn grp)
          else rx da r s opn grp)"
| "rx da (LazyStar c # r) s opn grp =
     (case rx da r s opn grp of
        Some g \<Rightarrow> Some g
      | None \<Rightarrow>
          (case s of
             [] \<Rightarrow> None
           | x # xs \<Rightarrow> if in_class da c x then rx da (LazyStar c # r) xs opn grp else None))"
| "rx da (LazyPlus c # r) s opn grp =
     (case s of
        [] \<Rightarrow> None
      | x # xs \<Rightarrow> if in_class da c x then rx da (LazyStar c # r) xs opn grp else None)"
| "rx da (Rep n c # r) s opn grp =
     (if n = 0 then rx da r s opn grp
      else
        (case s of
           [] \<Rightarrow> None
         | x # xs \<Rightarrow> if in_class da c x then rx da (Rep (n - 1) c # r) xs opn grp else None))"
| "rx da (GroupOpen # r) s opn grp = rx da r s s grp"
| "rx da (GroupClose # r) s opn grp = rx da r s opn (take (length opn - length s) opn)"
| "rx da (Alt a b # r) s opn grp =
     (case rx da (a @ r) s opn grp of
        Some g \<Rightarrow> Some g
      | None \<Rightarrow> rx da (b @ r) s opn grp)"
| "rx da (Dollar # r) s opn grp =
     (if s = [] \<or> s = [0x0A] then rx da r s opn grp else None)"
  by pat_completeness auto
termination
  by (relation "measures [\<lambda>(da, p, s, opn, grp). sum_list (map weight p),
                          \<lambda>(da, p, s, opn, grp). length s]") auto

text \<open>
  \<open>re.search(p, texto)\<close> tries every start position from left to right, the end of the
  text included, and stops at the first that matches. The match object is used for its
  \<open>group(1)\<close> only, so the result is that text, or \<open>None\<close> when nothing matches.
\<close>

fun re_search :: "bool \<Rightarrow> item list \<Rightarrow> str \<Rightarrow> str option" where
  "re_search da p [] = rx da p [] [] []"
| "re_search da p (c # cs) =
     (case rx da p (c # cs) [] [] of
        Some g \<Rightarrow> Some g
      | None \<Rightarrow> re_search da p cs)"

section \<open>extrair_info_comprovante\<close>

text \<open>The string literals of the function, accented letters by code point.\<close>

definition str_Data_de_debito :: str where
  "str_Data_de_debito = lit ''Data de d'' @ [0xE9] @ lit ''bito:''"

definition str_Nome_do_beneficiario :: str where
  "str_Nome_do_beneficiario = lit ''Nome do benefici'' @ [0xE1] @ lit ''rio:''"

definition str_Transferencia :: str where
  "str_Transferencia = lit ''Transfer'' @ [0xEA] @ lit ''ncia''"

definition str_Informacoes_do_Destinatario :: str where
  "str_Informacoes_do_Destinatario =
     lit ''Informa'' @ [0xE7, 0xF5] @ lit ''es do Destinat'' @ [0xE1] @ lit ''rio''"

text \<open>
  The five patterns, in the order of the source:
  \<^verbatim>\<open>Data de d\<close>\<open>U+00E9\<close>\<^verbatim>\<open>bito:\s*(\d{2}/\d{2}/\d{4})\<close>,
  \<^verbatim>\<open>Nome do benefici\<close>\<open>U+00E1\<close>\<^verbatim>\<open>rio:\s*(.+?)(?:\n|$)\<close>,
  \<^verbatim>\<open>Data/Hora:\s*(\d{2}/\d{2}/\d{4})\<close> (TED and PIX),
  \<^verbatim>\<open>Favorecido:\s*(.+?)(?:\n|$)\<close> and, with \<open>re.DOTALL\<close>,
  \<^verbatim>\<open>Informa\<close>\<open>U+00E7 U+00F5\<close>\<^verbatim>\<open>es do Destinat\<close>\<open>U+00E1\<close>\<^verbatim>\<open>rio.*?Nome:\s*(.+?)(?:\n|CPF)\<close>.
\<close>

definition date_group :: "item list" where
  "date_group =
     [GroupOpen, Rep 2 Digit, Lit (lit ''/''), Rep 2 Digit, Lit (lit ''/''), Rep 4 Digit,
      GroupClose]"

definition pat_data_debito :: "item list" where
  "pat_data_debito = [Lit str_Data_de_debito, Star Space] @ date_group"

definition pat_beneficiario :: "item list" where
  "pat_beneficiario =
     [Lit str_Nome_do_beneficiario, Star Space, GroupOpen, LazyPlus Dot, GroupClose,
      Alt [Lit [0x0A]] [Dollar]]"

definition pat_data_hora :: "item list" where
  "pat_data_hora = [Lit (lit ''Data/Hora:''), Star Space] @ date_group"

definition pat_favorecido :: "item list" where
  "pat_favorecido =
     [Lit (lit ''Favorecido:''), Star Space, GroupOpen, LazyPlus Dot, GroupClose,
      Alt [Lit [0x0A]] [Dollar]]"

definition pat_destinatario :: "item list" where
  "pat_destinatario =
     [Lit str_Informacoes_do_Destinatario, LazyStar Dot, Lit (lit ''Nome:''), Star Space,
      GroupOpen, LazyPlus Dot, GroupClose, Alt [Lit [0x0A]] [Lit (lit ''CPF'')]]"

text \<open>
  The result of the function: \<open>(data, destinatario, tipo_comprovante)\<close>, each \<open>None\<close>
  or a string.
\<close>

type_synonym info = "str option \<times> str option \<times> str option"

text \<open>
  Lines 23 to 73: what the function computes from the text of the first page. The date
  is \<open>match.group(1).replace('/', '-')\<close>, the name \<open>match.group(1).strip()\<close>.
\<close>

definition extrair_info_texto :: "str \<Rightarrow> info" where
  "extrair_info_texto texto =
     (if py_in (lit ''Boleto'') texto \<or> py_in str_Data_de_debito texto then
        (map_option (py_replace 0x2F 0x2D) (re_search False pat_data_debito texto),
         map_option py_strip (re_search False pat_beneficiario texto),
         Some (lit ''Boleto''))
      else if py_in (lit ''TED'') texto \<and> py_in str_Transferencia texto then
        (map_option (py_replace 0x2F 0x2D) (re_search False pat_data_hora texto),
         map_option py_strip (re_search False pat_favorecido texto),
         Some (lit ''TED''))
      else if py_in (lit ''PIX'') texto then
        (map_option (py_replace 0x2F 0x2D) (re_search False pat_data_hora texto),
         map_option py_strip (re_search True pat_destinatario texto),
         Some (lit ''PIX''))
      else (None, None, None))"

section \<open>limpar_nome_arquivo\<close>

text \<open>
  The class \<^verbatim>\<open>[<>:"/\\|?*]\<close> of the raw pattern: nine characters, the backslash once.
  \<open>re.sub\<close> of a one-character class by the empty string deletes every character of
  the class.
\<close>

definition invalidos :: "codepoint list" where
  "invalidos = [0x3C, 0x3E, 0x3A, 0x22, 0x2F, 0x5C, 0x7C, 0x3F, 0x2A]"

definition limpar_nome_arquivo :: "str \<Rightarrow> str" where
  "limpar_nome_arquivo nome =
     (let nome_limpo = filter (\<lambda>c. c \<notin> set invalidos) nome
      in py_join [0x20] (py_split nome_limpo))"

text \<open>
  What the specification asks of the sanitizer, in its own words: remove every
  occurrence of the nine characters, collapse every run of whitespace into a single
  space, trim leading and trailing whitespace. \<open>collapse_ws\<close> replaces each maximal run
  of whitespace by one space. The nine characters are written out here, by code point
  and independently of \<open>invalidos\<close>: less-than U+003C, greater-than U+003E, colon
  U+003A, double quote U+0022, slash U+002F, backslash U+005C, vertical bar U+007C,
  question mark U+003F and asterisk U+002A.
\<close>

function collapse_ws :: "str \<Rightarrow> str" where
  "collapse_ws [] = []"
| "collapse_ws (c # cs) =
     (if isspace c then 0x20 # collapse_ws (dropWhile isspace cs) else c # collapse_ws cs)"
  by pat_completeness auto
termination
  by (relation "measure length") (auto simp: length_dropWhile_le less_Suc_eq_le)

definition sanitize_spec :: "str \<Rightarrow> str" where
  "sanitize_spec name =
     py_strip (collapse_ws
       (filter (\<lambda>c. c \<notin> {0x3C, 0x3E, 0x3A, 0x22, 0x2F, 0x5C, 0x7C, 0x3F, 0x2A}) name))"

text \<open>Stripping at the right end only, for the proofs about \<open>py_strip\<close>.\<close>

definition rstrip :: "str \<Rightarrow> str" where
  "rstrip s = rev (dropWhile isspace (rev s))"

section \<open>The working directory, the libraries and the user interface\<close>

text \<open>
  A path is the list of its components below the temporary directory. The directory
  after \<open>extractall\<close> is a map from the paths of its regular files to their contents;
  the type \<open>'b\<close> of a content is left open. \<open>Path.name\<close> is the last component.
\<close>

type_synonym path = "str list"

definition path_name :: "path \<Rightarrow> str" where
  "path_name p = (if p = [] then [] else last p)"

text \<open>
  What the function does not compute itself is a parameter:
  \<^item> \<open>first_page_text\<close>: \<open>pdfplumber.open(f).pages[0].extract_text()\<close> on a content,
    \<open>Inr\<close> the text or \<open>Inl\<close> the \<open>str(e)\<close> of the exception raised on the way;
  \<^item> \<open>open_error\<close>: the \<open>str(e)\<close> of the exception \<open>pdfplumber.open\<close> raises for a
    path that holds no regular file (a directory, or a file that is gone);
  \<^item> \<open>rename_refused\<close>: \<open>Some\<close> the \<open>str(e)\<close> of the exception when the operating system
    refuses \<open>Path.rename\<close> (the target is a directory, the name has a NUL or is too
    long; on Windows also when the target exists), \<open>None\<close> when it performs it.
\<close>

record 'b env =
  first_page_text :: "'b \<Rightarrow> str + str"
  open_error :: "path \<Rightarrow> str"
  rename_refused :: "(path \<rightharpoonup> 'b) \<Rightarrow> path \<Rightarrow> path \<Rightarrow> str option"

text \<open>
  \<open>os.rename\<close> as POSIX performs it: the content moves to the target and silently
  replaces a file that is there; renaming a file to itself changes nothing. The source
  must exist (the loop renames only a file whose text it has just read; the
  interpreter's message for a missing one goes on with the two paths).
\<close>

definition os_rename :: "'b env \<Rightarrow> (path \<rightharpoonup> 'b) \<Rightarrow> path \<Rightarrow> path \<Rightarrow> str + (path \<rightharpoonup> 'b)" where
  "os_rename env files src dst =
     (case files src of
        None \<Rightarrow> Inl (lit ''[Errno 2] No such file or directory'')
      | Some c \<Rightarrow>
          (case rename_refused env files src dst of
             Some msg \<Rightarrow> Inl msg
           | None \<Rightarrow> Inr ((files(src := None))(dst \<mapsto> c))))"

text \<open>
  The calls on \<open>st\<close>, the progress bar and the status line, in the order they happen.
  \<open>Progress n d\<close> stands for \<open>progress(n / d)\<close>.
\<close>

datatype ui_event = StError str | StWarning str | StatusText str | Progress nat nat

text \<open>
  Lines 17 to 77: the function opens the file at \<open>pdf_path\<close> and reads the text of its
  first page; any exception on the way is caught, reported with \<open>st.error\<close> and answered
  by \<open>(None, None, None)\<close>. The result comes with the calls made on \<open>st\<close>.
\<close>

definition extrair_info_comprovante ::
    "'b env \<Rightarrow> (path \<rightharpoonup> 'b) \<Rightarrow> path \<Rightarrow> info \<times> ui_event list" where
  "extrair_info_comprovante env files pdf_path =
     (case files pdf_path of
        None \<Rightarrow>
          ((None, None, None),
           [StError (lit ''Erro ao processar PDF: '' @ open_error env pdf_path)])
      | Some c \<Rightarrow>
          (case first_page_text env c of
             Inl e \<Rightarrow> ((None, None, None), [StError (lit ''Erro ao processar PDF: '' @ e)])
           | Inr texto \<Rightarrow> (extrair_info_texto texto, [])))"

section \<open>processar_zip\<close>

text \<open>The dictionaries appended to \<open>resultados\<close>, with the keys of the source.\<close>

record resultado =
  original :: str
  novo_nome :: str
  status :: str
  tipo :: str
  data :: str
  destinatario :: str

definition status_sucesso :: str where
  "status_sucesso = [0x2705, 0x20] @ lit ''Sucesso''"

definition status_erro_ao_renomear :: "str \<Rightarrow> str" where
  "status_erro_ao_renomear e = [0x274C, 0x20] @ lit ''Erro ao renomear: '' @ e"

definition status_nao_encontradas :: str where
  "status_nao_encontradas =
     [0x26A0, 0xFE0F, 0x20] @ lit ''Informa'' @ [0xE7, 0xF5] @ lit ''es n'' @ [0xE3] @
     lit ''o encontradas''"

text \<open>
  \<open>x or default\<close> for \<open>x\<close> that is \<open>None\<close> or a string: \<open>None\<close> and the empty string are
  false.
\<close>

fun py_or :: "str option \<Rightarrow> str \<Rightarrow> str" where
  "py_or None d = d"
| "py_or (Some s) d = (if s = [] then d else s)"

text \<open>
  The variables the loop updates: the working directory, \<open>arquivos_renomeados\<close>,
  \<open>resultados\<close> and the calls made on the user interface.
\<close>

record 'b estado =
  fs :: "path \<rightharpoonup> 'b"
  arquivos_renomeados :: "path list"
  resultados :: "resultado list"
  ui :: "ui_event list"

text \<open>
  The \<open>else\<close> branch of line 152, for \<open>(data, destinatario, tipo) = (d, n, t)\<close>.
\<close>

definition nao_encontradas :: "path \<Rightarrow> info \<Rightarrow> resultado" where
  "nao_encontradas pdf_file i =
     (case i of (d, n, t) \<Rightarrow>
        \<lparr>original = path_name pdf_file,
         novo_nome = lit ''-'',
         status = status_nao_encontradas,
         tipo = py_or t (lit ''Desconhecido''),
         data = py_or d (lit ''N/A''),
         destinatario = py_or n (lit ''N/A'')\<rparr>)"

text \<open>
  The true branch, lines 124 to 151: the new name, the rename inside the temporary
  directory, and the dictionary of either outcome.
\<close>

definition renomear :: "'b env \<Rightarrow> path \<Rightarrow> str \<Rightarrow> str \<Rightarrow> str option \<Rightarrow> 'b estado \<Rightarrow> 'b estado" where
  "renomear env pdf_file d n t st =
     (let destinatario_limpo = limpar_nome_arquivo n;
          novo = d @ lit '' - '' @ destinatario_limpo @ lit ''.pdf'';
          novo_caminho = [novo]
      in case os_rename env (fs st) pdf_file novo_caminho of
           Inr files \<Rightarrow>
             st\<lparr>fs := files,
                arquivos_renomeados := arquivos_renomeados st @ [novo_caminho],
                resultados := resultados st @
                  [\<lparr>original = path_name pdf_file,
                    novo_nome = novo,
                    status = status_sucesso,
                    tipo = py_or t (lit ''Desconhecido''),
                    data = d,
                    destinatario = destinatario_limpo\<rparr>]\<rparr>
         | Inl e \<Rightarrow>
             st\<lparr>resultados := resultados st @
                  [\<lparr>original = path_name pdf_file,
                    novo_nome = lit ''-'',
                    status = status_erro_ao_renomear e,
                    tipo = py_or t (lit ''Desconhecido''),
                    data = d,
                    destinatario = destinatario_limpo\<rparr>]\<rparr>)"

text \<open>
  The records and the files of one pass of the loop (lines 121 to 160), without the
  calls on the user interface: \<open>if data and destinatario\<close> takes the true branch when
  both are non-empty strings.
\<close>

definition processar_pdf :: "'b env \<Rightarrow> path \<Rightarrow> info \<Rightarrow> 'b estado \<Rightarrow> 'b estado" where
  "processar_pdf env pdf_file i st =
     (case i of
        (Some d, Some n, t) \<Rightarrow>
          if d \<noteq> [] \<and> n \<noteq> [] then renomear env pdf_file d n t st
          else st\<lparr>resultados := resultados st @ [nao_encontradas pdf_file i]\<rparr>
      | _ \<Rightarrow> st\<lparr>resultados := resultados st @ [nao_encontradas pdf_file i]\<rparr>)"

text \<open>
  The body of the loop, lines 118 to 162, for the file \<open>pdf_file\<close> at index \<open>idx\<close>;
  \<open>len\<close> is \<open>len(pdf_files)\<close>.
\<close>

definition loop_body :: "'b env \<Rightarrow> nat \<Rightarrow> nat \<Rightarrow> path \<Rightarrow> 'b estado \<Rightarrow> 'b estado" where
  "loop_body env len idx pdf_file st =
     (let st1 = st\<lparr>ui := ui st @
                  [StatusText (lit ''Processando '' @ path_name pdf_file @ lit ''...'')]\<rparr>;
          r = extrair_info_comprovante env (fs st1) pdf_file;
          st2 = st1\<lparr>ui := ui st1 @ snd r\<rparr>;
          st3 = processar_pdf env pdf_file (fst r) st2
      in st3\<lparr>ui := ui st3 @ [Progress (idx + 1) len]\<rparr>)"

fun run_loop :: "'b env \<Rightarrow> nat \<Rightarrow> nat \<Rightarrow> path list \<Rightarrow> 'b estado \<Rightarrow> 'b estado" where
  "run_loop env len idx [] st = st"
| "run_loop env len idx (pdf_file # rest) st =
     run_loop env len (Suc idx) rest (loop_body env len idx pdf_file st)"

text \<open>
  \<open>temp_path.rglob('*.pdf')\<close>: of the paths the recursive walk of the directory visits
  (files and directories, in the order of the walk), those whose name ends in
  \<open>.pdf\<close>, in that order. The match is case-sensitive, as on POSIX.
\<close>

definition endswith :: "str \<Rightarrow> str \<Rightarrow> bool" where
  "endswith s suf \<longleftrightarrow> length suf \<le> length s \<and> drop (length s - length suf) s = suf"

definition rglob_pdf :: "path list \<Rightarrow> path list" where
  "rglob_pdf walk = filter (\<lambda>p. p \<noteq> [] \<and> endswith (last p) (lit ''.pdf'')) walk"

text \<open>
  Lines 167 to 170: \<open>zip_out.write(arquivo, arquivo.name)\<close> for every path of
  \<open>arquivos_renomeados\<close>. The archive is the list of its entries, name and content, in
  the order they are written: \<open>ZipFile.write\<close> appends an entry also when the name is
  already there (it only warns). A path with no file makes \<open>write\<close> raise, and nothing
  catches that.
\<close>

datatype exn = FileNotFoundError path

fun zip_write :: "(path \<rightharpoonup> 'b) \<Rightarrow> path list \<Rightarrow> exn + (str \<times> 'b) list" where
  "zip_write files [] = Inr []"
| "zip_write files (arquivo # rest) =
     (case files arquivo of
        None \<Rightarrow> Inl (FileNotFoundError arquivo)
      | Some c \<Rightarrow>
          (case zip_write files rest of
             Inl e \<Rightarrow> Inl e
           | Inr zs \<Rightarrow> Inr ((path_name arquivo, c) # zs)))"

text \<open>
  The function from line 106 on, on the directory \<open>files\<close> that \<open>extractall\<close> has
  filled and the walk of it. It returns \<open>(zip_output, resultados)\<close>; the calls on the
  user interface are the third component.
\<close>

definition processar_zip ::
    "'b env \<Rightarrow> (path \<rightharpoonup> 'b) \<Rightarrow> path list \<Rightarrow>
     exn + ((str \<times> 'b) list option \<times> resultado list \<times> ui_event list)" where
  "processar_zip env files walk =
     (let pdf_files = rglob_pdf walk
      in if pdf_files = [] then
           Inr (None, [], [StWarning (lit ''Nenhum arquivo PDF encontrado no ZIP.'')])
         else
           (let st = run_loop env (length pdf_files) 0 pdf_files
                       \<lparr>fs = files, arquivos_renomeados = [], resultados = [],
                        ui = [Progress 0 1]\<rparr>
            in case zip_write (fs st) (arquivos_renomeados st) of
                 Inl e \<Rightarrow> Inl e
               | Inr zs \<Rightarrow>
                   Inr (Some zs, resultados st,
                        ui st @
                        [StatusText (lit ''Criando arquivo ZIP final...''), Progress 1 1,
                         StatusText (lit ''Processamento conclu'' @ [0xED] @ lit ''do!'')])))"

section \<open>The loop, pass by pass\<close>

text \<open>
  The loop, pass by pass. \<open>inicio files\<close> is the state of the loop on the directory
  \<open>files\<close> with nothing renamed and no record yet; \<open>passo env files f\<close> is one pass of
  the loop for the file \<open>f\<close> from that state (the index and \<open>len(pdf_files)\<close> reach only
  the progress bar).
\<close>

definition inicio :: "(path \<rightharpoonup> 'b) \<Rightarrow> 'b estado" where
  "inicio files = \<lparr>fs = files, arquivos_renomeados = [], resultados = [], ui = []\<rparr>"

definition passo :: "'b env \<Rightarrow> (path \<rightharpoonup> 'b) \<Rightarrow> path \<Rightarrow> 'b estado" where
  "passo env files f = loop_body env 0 0 f (inicio files)"

text \<open>
  The directory, \<open>arquivos_renomeados\<close> and \<open>resultados\<close> once the loop has processed
  the files \<open>pdfs\<close>, in that order, starting from the directory \<open>files\<close>. When the loop
  runs over \<open>pre @ f # post\<close>, the file \<open>f\<close> is read from \<open>dir_after env files pre\<close>.
  The index, \<open>len(pdf_files)\<close> and the calls already made on the user interface have no
  influence on these three: the loop of \<open>processar_zip\<close> ends with them, whatever its
  counters (\<open>run_loop_frame\<close> and \<open>processar_zip_some\<close> below).
\<close>

definition dir_after :: "'b env \<Rightarrow> (path \<rightharpoonup> 'b) \<Rightarrow> path list \<Rightarrow> (path \<rightharpoonup> 'b)" where
  "dir_after env files pdfs = fs (run_loop env 0 0 pdfs (inicio files))"

definition renomeados_after :: "'b env \<Rightarrow> (path \<rightharpoonup> 'b) \<Rightarrow> path list \<Rightarrow> path list" where
  "renomeados_after env files pdfs = arquivos_renomeados (run_loop env 0 0 pdfs (inicio files))"

definition resultados_after :: "'b env \<Rightarrow> (path \<rightharpoonup> 'b) \<Rightarrow> path list \<Rightarrow> resultado list" where
  "resultados_after env files pdfs = resultados (run_loop env 0 0 pdfs (inicio files))"

text \<open>
  The path a file with content \<open>c\<close> is renamed to, \<open>temp_path / novo_nome\<close>: defined when
  the text of its first page yields a date and a payee, both non-empty.
\<close>

definition alvo :: "'b env \<Rightarrow> 'b \<Rightarrow> path option" where
  "alvo env c =
     (case first_page_text env c of
        Inl e \<Rightarrow> None
      | Inr texto \<Rightarrow>
          (case extrair_info_texto texto of
             (Some d, Some n, t) \<Rightarrow>
               if d \<noteq> [] \<and> n \<noteq> [] then
                 Some [d @ lit '' - '' @ limpar_nome_arquivo n @ lit ''.pdf'']
               else None
           | _ \<Rightarrow> None))"

text \<open>
  The invariant of the loop: every path of \<open>arquivos_renomeados\<close> holds a file, and that
  file's own target is the path it is at.
\<close>

definition coerente :: "'b env \<Rightarrow> (path \<rightharpoonup> 'b) \<Rightarrow> path list \<Rightarrow> bool" where
  "coerente env files arqs \<longleftrightarrow> (\<forall>q\<in>set arqs. \<exists>c. files q = Some c \<and> alvo env c = Some q)"

text \<open>
  The entries the second loop writes, and the calls on the user interface of a whole
  run over the files \<open>xs\<close>.
\<close>

definition arquivo_final :: "'b env \<Rightarrow> (path \<rightharpoonup> 'b) \<Rightarrow> path list \<Rightarrow> (str \<times> 'b) list" where
  "arquivo_final env files xs =
     map (\<lambda>q. (path_name q, the (dir_after env files xs q))) (renomeados_after env files xs)"

definition ui_final :: "'b env \<Rightarrow> (path \<rightharpoonup> 'b) \<Rightarrow> path list \<Rightarrow> ui_event list" where
  "ui_final env files xs =
     ui (run_loop env (length xs) 0 xs
           \<lparr>fs = files, arquivos_renomeados = [], resultados = [], ui = [Progress 0 1]\<rparr>) @
     [StatusText (lit ''Criando arquivo ZIP final...''), Progress 1 1,
      StatusText (lit ''Processamento conclu'' @ [0xED] @ lit ''do!'')]"

section \<open>Sample receipts\<close>

text \<open>
  A PIX receipt: the date with a time after it, and the name of the payee two lines
  below the heading of the payee block, before the line of the CPF.
\<close>

definition texto_pix :: str where
  "texto_pix =
     lit ''Comprovante de Pagamento PIX'' @ [0x0A] @
     lit ''Data/Hora: 19/12/2025 14:32'' @ [0x0A] @
     str_Informacoes_do_Destinatario @ [0x0A] @
     lit ''Banco: 260 - Nu Pagamentos'' @ [0x0A] @
     lit ''Nome: Francivaldo de Sousa Figueira'' @ [0x0A] @
     lit ''CPF: ***.123.456-**'' @ [0x0A]"


text \<open>
  A POSIX system that performs every rename, with files whose content stands for the
  text of their first page; one content is a truncated document on which \<open>pdfplumber\<close>
  raises.
\<close>

definition env_exemplo :: "str env" where
  "env_exemplo =
     \<lparr>first_page_text =
        (\<lambda>c. if c = lit ''%PDF-1.4 truncated''
              then Inl (lit ''No /Root object! - Is this really a PDF?'') else Inr c),
      open_error = (\<lambda>p. lit ''[Errno 21] Is a directory''),
      rename_refused = (\<lambda>files src dst. None)\<rparr>"

text \<open>A Boleto receipt of 19/12/2025 for the payee \<open>nome\<close> and the amount \<open>valor\<close>.\<close>

definition boleto :: "str \<Rightarrow> str \<Rightarrow> str" where
  "boleto nome valor =
     lit ''Comprovante de pagamento de Boleto'' @ [0x0A] @
     str_Data_de_debito @ lit '' 19/12/2025'' @ [0x0A] @
     str_Nome_do_beneficiario @ lit '' '' @ nome @ [0x0A] @
     lit ''Valor: '' @ valor @ [0x0A]"

definition jane_1 :: str where
  "jane_1 = boleto (lit ''Jane Doe'') (lit ''1,00'')"

definition jane_2 :: str where
  "jane_2 = boleto (lit ''Jane Doe'') (lit ''2,00'')"

text \<open>
  An archive with two distinct receipts of the same date and payee, \<open>a.pdf\<close> and
  \<open>sub/b.pdf\<close>, and the walk of the directory it unpacks to.
\<close>

definition dir_dup :: "path \<rightharpoonup> str" where
  "dir_dup = [[lit ''a.pdf''] \<mapsto> jane_1, [lit ''sub'', lit ''b.pdf''] \<mapsto> jane_2]"

definition walk_dup :: "path list" where
  "walk_dup = [[lit ''a.pdf''], [lit ''sub''], [lit ''sub'', lit ''b.pdf'']]"

text \<open>
  A PIX receipt with a date and no payee block, a directory with a truncated document,
  and a Boleto receipt whose payee is made of question marks only.
\<close>

definition pix_sem_nome :: str where
  "pix_sem_nome =
     lit ''Comprovante PIX'' @ [0x0A] @ lit ''Data/Hora: 19/12/2025 10:00'' @ [0x0A]"

definition dir_falta :: "path \<rightharpoonup> str" where
  "dir_falta = [[lit ''nota.pdf''] \<mapsto> pix_sem_nome, [lit ''a.pdf''] \<mapsto> jane_1]"

definition dir_corrompido :: "path \<rightharpoonup> str" where
  "dir_corrompido = [[lit ''x.pdf''] \<mapsto> lit ''%PDF-1.4 truncated'', [lit ''a.pdf''] \<mapsto> jane_1]"



section \<open>Facts about the string operations\<close>

declare py_split.simps [simp del]

lemmas eval_defs =
  lit_def str_Data_de_debito_def str_Nome_do_beneficiario_def str_Transferencia_def
  str_Informacoes_do_Destinatario_def pat_data_debito_def pat_beneficiario_def
  pat_data_hora_def pat_favorecido_def pat_destinatario_def date_group_def
  isdecimal_def decimal_runs_def isspace_def py_strip_def py_replace_def

lemma startswith_iff: "startswith s p \<longleftrightarrow> (\<exists>b. s = p @ b)"
  by (induction s p rule: startswith.induct) auto

text \<open>\<open>py_in\<close> is the substring test.\<close>

lemma py_in_iff: "py_in sub t \<longleftrightarrow> (\<exists>a b. t = a @ sub @ b)"
proof (induction t)
  case Nil
  show ?case by auto
next
  case (Cons c cs)
  have "(\<exists>a b. c # cs = a @ sub @ b) \<longleftrightarrow> (\<exists>b. c # cs = sub @ b) \<or> (\<exists>a b. cs = a @ sub @ b)"
  proof
    assume "\<exists>a b. c # cs = a @ sub @ b"
    then obtain a b where ab: "c # cs = a @ sub @ b" by blast
    show "(\<exists>b. c # cs = sub @ b) \<or> (\<exists>a b. cs = a @ sub @ b)"
    proof (cases a)
      case Nil
      with ab show ?thesis by auto
    next
      case (Cons x xs)
      with ab have "cs = xs @ sub @ b" by simp
      then show ?thesis by blast
    qed
  next
    assume "(\<exists>b. c # cs = sub @ b) \<or> (\<exists>a b. cs = a @ sub @ b)"
    then show "\<exists>a b. c # cs = a @ sub @ b"
    proof
      assume "\<exists>b. c # cs = sub @ b"
      then obtain b where "c # cs = [] @ sub @ b" by auto
      then show ?thesis by blast
    next
      assume "\<exists>a b. cs = a @ sub @ b"
      then obtain a b where "c # cs = (c # a) @ sub @ b" by auto
      then show ?thesis by blast
    qed
  qed
  then show ?case using Cons by (simp add: startswith_iff)
qed

lemma py_split_unfold_Nil: "dropWhile isspace s = [] \<Longrightarrow> py_split s = []"
  by (subst py_split.simps) (simp del: dropWhile_eq_Nil_conv)

lemma py_split_unfold_Cons:
  "dropWhile isspace s = c # cs \<Longrightarrow>
   py_split s = takeWhile (\<lambda>x. \<not> isspace x) (c # cs) # py_split (dropWhile (\<lambda>x. \<not> isspace x) cs)"
  by (subst py_split.simps) (simp del: dropWhile_eq_Nil_conv)

lemma py_split_space: "isspace c \<Longrightarrow> py_split (c # s) = py_split s"
  by (simp add: py_split.simps [of "c # s"] py_split.simps [of s])

lemma py_split_Nil: "py_split [] = []"
  by (simp add: py_split.simps)

lemma py_split_word:
  "\<not> isspace c \<Longrightarrow>
   py_split (c # s) = takeWhile (\<lambda>x. \<not> isspace x) (c # s) # py_split (dropWhile (\<lambda>x. \<not> isspace x) s)"
  by (simp add: py_split.simps [of "c # s"])

lemma py_split_dropWhile: "py_split (dropWhile isspace s) = py_split s"
  by (induction s) (simp_all add: py_split_space)

lemma py_split_words: "w \<in> set (py_split s) \<Longrightarrow> w \<noteq> [] \<and> (\<forall>c\<in>set w. \<not> isspace c)"
proof (induction s arbitrary: w rule: py_split.induct)
  case (1 s)
  show ?case
  proof (cases "dropWhile isspace s")
    case Nil
    with 1 show ?thesis by (simp add: py_split.simps [of s])
  next
    case (Cons c cs)
    then have nc: "\<not> isspace c" by (metis hd_dropWhile list.sel(1) list.distinct(1))
    from 1(2) Cons have "w = takeWhile (\<lambda>x. \<not> isspace x) (c # cs) \<or> w \<in> set (py_split (dropWhile (\<lambda>x. \<not> isspace x) cs))"
      by (simp add: py_split.simps [of s])
    then show ?thesis
    proof
      assume "w = takeWhile (\<lambda>x. \<not> isspace x) (c # cs)"
      with nc show ?thesis by (auto dest: set_takeWhileD)
    next
      assume "w \<in> set (py_split (dropWhile (\<lambda>x. \<not> isspace x) cs))"
      with 1(1) [OF Cons] show ?thesis by blast
    qed
  qed
qed

lemma py_split_append_word:
  assumes "w \<noteq> []" "\<forall>c\<in>set w. \<not> isspace c" "r = [] \<or> isspace (hd r)"
  shows "py_split (w @ r) = w # py_split r"
proof -
  obtain c cs where w: "w = c # cs" using assms(1) by (cases w) auto
  have nc: "\<not> isspace c" using assms(2) w by simp
  have tw: "takeWhile (\<lambda>x. \<not> isspace x) (w @ r) = w"
    using assms(2,3) by (cases r) (auto simp: takeWhile_append2 takeWhile_eq_all_conv)
  have dw: "dropWhile (\<lambda>x. \<not> isspace x) (cs @ r) = r"
    using assms(2,3) w by (cases r) (auto simp: dropWhile_append2)
  show ?thesis using py_split_word [OF nc, of "cs @ r"] tw dw w by simp
qed

lemma py_split_join:
  "\<forall>w\<in>set ws. w \<noteq> [] \<and> (\<forall>c\<in>set w. \<not> isspace c) \<Longrightarrow> py_split (py_join [0x20] ws) = ws"
proof (induction "[0x20::nat]" ws rule: py_join.induct)
  case 1
  show ?case by (simp add: py_split_Nil)
next
  case (2 w)
  then show ?case using py_split_append_word [of w "[]"] by (simp add: py_split_Nil)
next
  case (3 w v ws)
  have sp: "isspace 0x20" by (simp add: isspace_def)
  have "py_split (w @ [0x20] @ py_join [0x20] (v # ws)) = w # py_split ([0x20] @ py_join [0x20] (v # ws))"
    using 3(2) sp by (intro py_split_append_word) auto
  also have "py_split ([0x20] @ py_join [0x20] (v # ws)) = py_split (py_join [0x20] (v # ws))"
    using sp by (simp add: py_split_space)
  also have "\<dots> = v # ws" using 3 by simp
  finally show ?case by simp
qed

lemma set_py_join: "set (py_join sep ws) \<subseteq> set sep \<union> \<Union> (set ` set ws)"
  by (induction sep ws rule: py_join.induct) auto

lemma set_py_split: "w \<in> set (py_split s) \<Longrightarrow> set w \<subseteq> set s"
proof (induction s arbitrary: w rule: py_split.induct)
  case (1 s)
  show ?case
  proof (cases "dropWhile isspace s")
    case Nil
    with 1(2) show ?thesis by (simp add: py_split_unfold_Nil)
  next
    case (Cons c cs)
    have sub: "set (c # cs) \<subseteq> set s"
      using set_dropWhileD [of _ isspace s] unfolding Cons by blast
    from 1(2) have "w = takeWhile (\<lambda>x. \<not> isspace x) (c # cs) \<or>
        w \<in> set (py_split (dropWhile (\<lambda>x. \<not> isspace x) cs))"
      by (simp add: py_split_unfold_Cons [OF Cons])
    then show ?thesis
    proof
      assume "w = takeWhile (\<lambda>x. \<not> isspace x) (c # cs)"
      then have "set w \<subseteq> set (c # cs)" by (meson set_takeWhileD subsetI)
      with sub show ?thesis by blast
    next
      assume "w \<in> set (py_split (dropWhile (\<lambda>x. \<not> isspace x) cs))"
      then have "set w \<subseteq> set (dropWhile (\<lambda>x. \<not> isspace x) cs)" by (rule 1(1) [OF Cons])
      moreover have "set (dropWhile (\<lambda>x. \<not> isspace x) cs) \<subseteq> set cs"
        by (meson set_dropWhileD subsetI)
      ultimately show ?thesis using sub by auto
    qed
  qed
qed

lemma py_strip_rstrip: "py_strip s = rstrip (dropWhile isspace s)"
  by (simp add: py_strip_def rstrip_def)

lemma rstrip_Nil: "rstrip [] = []"
  by (simp add: rstrip_def)

lemma rstrip_eq_Nil: "rstrip s = [] \<longleftrightarrow> (\<forall>c\<in>set s. isspace c)"
  by (simp add: rstrip_def)

lemma rstrip_space: "isspace c \<Longrightarrow> rstrip (c # u) = (if rstrip u = [] then [] else c # rstrip u)"
proof -
  assume c: "isspace c"
  show ?thesis
  proof (cases "\<forall>x\<in>set u. isspace x")
    case True
    then have "dropWhile isspace (rev u @ [c]) = []" using c by simp
    then show ?thesis using True by (simp add: rstrip_def)
  next
    case False
    then obtain x where "x \<in> set (rev u)" "\<not> isspace x" by auto
    then have "dropWhile isspace (rev u @ [c]) = dropWhile isspace (rev u) @ [c]"
      by (rule dropWhile_append1)
    then show ?thesis using False by (simp add: rstrip_def)
  qed
qed

lemma rstrip_word:
  assumes "w \<noteq> []" "\<forall>c\<in>set w. \<not> isspace c"
  shows "rstrip (w @ u) = w @ rstrip u"
proof -
  have lw: "last w \<in> set (rev w)" "\<not> isspace (last w)" using assms by auto
  show ?thesis
  proof (cases "\<forall>x\<in>set u. isspace x")
    case True
    then have "dropWhile isspace (rev u @ rev w) = dropWhile isspace (rev w)"
      by (intro dropWhile_append2) simp
    also have "\<dots> = rev w" using assms by (cases "rev w") auto
    finally show ?thesis using True by (simp add: rstrip_def)
  next
    case False
    then obtain x where "x \<in> set (rev u)" "\<not> isspace x" by auto
    then have "dropWhile isspace (rev u @ rev w) = dropWhile isspace (rev u) @ rev w"
      by (rule dropWhile_append1)
    then show ?thesis by (simp add: rstrip_def)
  qed
qed

lemma collapse_ws_word: "\<forall>c\<in>set w. \<not> isspace c \<Longrightarrow> collapse_ws (w @ r) = w @ collapse_ws r"
  by (induction w) auto

lemma collapse_ws_space: "isspace c \<Longrightarrow> collapse_ws (c # r) = 0x20 # collapse_ws (dropWhile isspace (c # r))"
  by simp

lemma collapse_ws_start:
  "r = [] \<or> \<not> isspace (hd r) \<Longrightarrow> dropWhile isspace (collapse_ws r) = collapse_ws r"
  by (cases r) auto

lemma dropWhile_collapse_ws: "dropWhile isspace (collapse_ws s) = collapse_ws (dropWhile isspace s)"
proof (cases s)
  case Nil
  then show ?thesis by simp
next
  case (Cons c cs)
  show ?thesis
  proof (cases "isspace c")
    case True
    have sp: "isspace 0x20" by (simp add: isspace_def)
    have "dropWhile isspace cs = [] \<or> \<not> isspace (hd (dropWhile isspace cs))"
      by (metis hd_dropWhile)
    then have "dropWhile isspace (collapse_ws (dropWhile isspace cs)) = collapse_ws (dropWhile isspace cs)"
      by (rule collapse_ws_start)
    then show ?thesis using True Cons sp by simp
  next
    case False
    then show ?thesis using Cons by simp
  qed
qed

lemma py_join_Cons: "py_join sep (w # ws) = (if ws = [] then w else w @ sep @ py_join sep ws)"
  by (cases ws) auto

lemma join_split_collapse: "py_join [0x20] (py_split s) = rstrip (collapse_ws (dropWhile isspace s))"
proof (induction s rule: py_split.induct)
  case (1 s)
  show ?case
  proof (cases "dropWhile isspace s")
    case Nil
    have "py_split s = []" using Nil by (rule py_split_unfold_Nil)
    moreover have "rstrip (collapse_ws (dropWhile isspace s)) = []"
      by (simp only: Nil collapse_ws.simps rstrip_Nil)
    ultimately show ?thesis by simp
  next
    case (Cons c cs)
    let ?w = "takeWhile (\<lambda>x. \<not> isspace x) (c # cs)"
    let ?r = "dropWhile (\<lambda>x. \<not> isspace x) cs"
    have nc: "\<not> isspace c" using Cons by (metis hd_dropWhile list.sel(1) list.distinct(1))
    have w: "?w \<noteq> []" "\<forall>x\<in>set ?w. \<not> isspace x" using nc by (auto dest: set_takeWhileD)
    have IH: "py_join [0x20] (py_split ?r) = rstrip (collapse_ws (dropWhile isspace ?r))"
      by (rule 1 [OF Cons])
    have ps: "py_split s = ?w # py_split ?r" by (rule py_split_unfold_Cons [OF Cons])
    have a: "?w @ dropWhile (\<lambda>x. \<not> isspace x) (c # cs) = c # cs"
      by (rule takeWhile_dropWhile_id)
    have dr: "dropWhile (\<lambda>x. \<not> isspace x) (c # cs) = ?r" using nc by simp
    have "collapse_ws (c # cs) = collapse_ws (?w @ dropWhile (\<lambda>x. \<not> isspace x) (c # cs))"
      by (simp only: a)
    also have "\<dots> = ?w @ collapse_ws (dropWhile (\<lambda>x. \<not> isspace x) (c # cs))"
      by (rule collapse_ws_word [OF w(2)])
    finally have cw: "collapse_ws (c # cs) = ?w @ collapse_ws ?r"
      by (simp only: dr)
    have rhs: "rstrip (collapse_ws (dropWhile isspace s)) = ?w @ rstrip (collapse_ws ?r)"
      by (simp only: Cons cw rstrip_word [OF w])
    show ?thesis
    proof (cases ?r)
      case Nil
      have "py_join [0x20] (py_split s) = ?w"
        by (simp only: ps Nil py_split_Nil py_join.simps)
      moreover have "rstrip (collapse_ws (dropWhile isspace s)) = ?w"
        by (simp only: rhs Nil collapse_ws.simps rstrip_Nil append_Nil2)
      ultimately show ?thesis by (rule trans [OF _ sym])
    next
      case rc: (Cons x r')
      have sx: "isspace x" using rc by (metis hd_dropWhile list.sel(1) list.distinct(1))
      have "collapse_ws (x # r') = 0x20 # collapse_ws (dropWhile isspace (x # r'))"
        by (rule collapse_ws_space [OF sx])
      then have cr: "collapse_ws ?r = 0x20 # collapse_ws (dropWhile isspace ?r)"
        by (simp only: rc)
      have sp: "isspace 0x20" by (simp add: isspace_def)
      have rs: "rstrip (collapse_ws ?r) =
          (if py_join [0x20] (py_split ?r) = [] then [] else 0x20 # py_join [0x20] (py_split ?r))"
        by (simp only: cr rstrip_space [OF sp] IH)
      show ?thesis
      proof (cases "py_split ?r")
        case Nil
        have "py_join [0x20] (py_split s) = ?w"
          by (simp only: ps Nil py_join.simps)
        moreover have "rstrip (collapse_ws (dropWhile isspace s)) = ?w"
          by (simp only: rhs rs Nil py_join.simps if_True append_Nil2 refl)
        ultimately show ?thesis by (rule trans [OF _ sym])
      next
        case (Cons v vs)
        have "v \<in> set (py_split ?r)" by (simp only: Cons list.set_intros)
        then have "v \<noteq> []" using py_split_words by blast
        then have ne: "py_join [0x20] (v # vs) \<noteq> []" by (cases vs) simp_all
        have "py_join [0x20] (py_split s) = ?w @ [0x20] @ py_join [0x20] (v # vs)"
          by (simp only: ps Cons py_join.simps)
        moreover have "rstrip (collapse_ws (dropWhile isspace s)) = ?w @ 0x20 # py_join [0x20] (v # vs)"
          using ne by (simp only: rhs rs Cons if_False)
        ultimately show ?thesis by simp
      qed
    qed
  qed
qed

lemma set_invalidos: "set invalidos = {0x3C, 0x3E, 0x3A, 0x22, 0x2F, 0x5C, 0x7C, 0x3F, 0x2A}"
  by (simp add: invalidos_def)

lemma limpar_refines: "limpar_nome_arquivo name = sanitize_spec name"
  by (simp add: limpar_nome_arquivo_def sanitize_spec_def py_strip_rstrip join_split_collapse
      dropWhile_collapse_ws set_invalidos)

lemma limpar_no_invalid: "set (limpar_nome_arquivo name) \<inter> set invalidos = {}"
proof -
  let ?f = "filter (\<lambda>c. c \<notin> set invalidos) name"
  have "set (py_join [0x20] (py_split ?f)) \<subseteq> insert 0x20 (set ?f)"
    using set_py_join [of "[0x20]" "py_split ?f"] set_py_split [of _ ?f] by fastforce
  moreover have "(0x20::nat) \<notin> set invalidos" by (simp add: invalidos_def)
  ultimately show ?thesis by (auto simp: limpar_nome_arquivo_def)
qed

text \<open>
  C7: for every string, \<open>limpar_nome_arquivo\<close> computes what the specification asks:
  the name without the nine characters (less-than, greater-than, colon, double quote,
  slash, backslash, vertical bar, question mark, asterisk), every run of whitespace
  collapsed into one space, trimmed at both ends; and its result contains none of the
  nine characters, written out by code point (U+003C, U+003E, U+003A, U+0022, U+002F,
  U+005C, U+007C, U+003F, U+002A).
\<close>

theorem C7_limpar_meets_spec:
  "limpar_nome_arquivo name = sanitize_spec name \<and>
   set (limpar_nome_arquivo name) \<inter> {0x3C, 0x3E, 0x3A, 0x22, 0x2F, 0x5C, 0x7C, 0x3F, 0x2A} = {}"
  using limpar_refines [of name] limpar_no_invalid [of name] by (simp only: set_invalidos simp_thms)

text \<open>
  C8: \<open>limpar_nome_arquivo\<close> is idempotent: applying it to its own result changes
  nothing, for every string.
\<close>

theorem C8_limpar_idempotent: "limpar_nome_arquivo (limpar_nome_arquivo x) = limpar_nome_arquivo x"
proof -
  let ?f = "filter (\<lambda>c. c \<notin> set invalidos)"
  let ?ws = "py_split (?f x)"
  have ok32: "(0x20::nat) \<notin> set invalidos" by (simp add: invalidos_def)
  have "set (py_join [0x20] ?ws) \<subseteq> insert 0x20 (set (?f x))"
    using set_py_join [of "[0x20]" ?ws] set_py_split [of _ "?f x"] by fastforce
  then have "\<forall>c\<in>set (py_join [0x20] ?ws). c \<notin> set invalidos"
    using ok32 by auto
  then have f: "?f (py_join [0x20] ?ws) = py_join [0x20] ?ws"
    by (rule filter_True)
  have "\<forall>w\<in>set ?ws. w \<noteq> [] \<and> (\<forall>c\<in>set w. \<not> isspace c)"
    using py_split_words by blast
  then have sj: "py_split (py_join [0x20] ?ws) = ?ws"
    by (rule py_split_join)
  have "limpar_nome_arquivo (limpar_nome_arquivo x) = py_join [0x20] (py_split (?f (py_join [0x20] ?ws)))"
    by (simp only: limpar_nome_arquivo_def Let_def)
  also have "\<dots> = py_join [0x20] ?ws"
    by (simp only: f sj)
  also have "\<dots> = limpar_nome_arquivo x"
    by (simp only: limpar_nome_arquivo_def Let_def)
  finally show ?thesis .
qed

section \<open>Facts about extrair_info_comprovante\<close>



lemma info_texto_pix:
  "extrair_info_texto texto_pix =
     (Some (lit ''19-12-2025''), Some (lit ''Francivaldo de Sousa Figueira''),
      Some (lit ''PIX''))"
  by (simp add: extrair_info_texto_def texto_pix_def eval_defs)


text \<open>
  C9: when the function returns a date or a payee, it returns a type as well, one of
  Boleto, TED and PIX.
\<close>

theorem C9_field_implies_type:
  "extrair_info_texto texto = (d, n, t) \<Longrightarrow> d \<noteq> None \<or> n \<noteq> None \<Longrightarrow>
   t = Some (lit ''Boleto'') \<or> t = Some (lit ''TED'') \<or> t = Some (lit ''PIX'')"
  by (auto simp: extrair_info_texto_def split: if_splits)

theorem C9_field_implies_type_witness:
  "extrair_info_texto texto_pix =
     (Some (lit ''19-12-2025''), Some (lit ''Francivaldo de Sousa Figueira''),
      Some (lit ''PIX'')) \<and>
   (Some (lit ''PIX'') = Some (lit ''Boleto'') \<or> Some (lit ''PIX'') = Some (lit ''TED'') \<or>
    Some (lit ''PIX'') = Some (lit ''PIX''))"
  using C9_field_implies_type [OF info_texto_pix] info_texto_pix by simp

section \<open>Facts about processar_zip\<close>

lemma processar_pdf_frame:
  "fs (processar_pdf env f i st) = fs (processar_pdf env f i (inicio (fs st)))"
  "arquivos_renomeados (processar_pdf env f i st) =
     arquivos_renomeados st @ arquivos_renomeados (processar_pdf env f i (inicio (fs st)))"
  "resultados (processar_pdf env f i st) =
     resultados st @ resultados (processar_pdf env f i (inicio (fs st)))"
  "ui (processar_pdf env f i st) = ui st"
  by (auto simp: processar_pdf_def renomear_def inicio_def Let_def
      split: prod.splits option.splits sum.splits)

lemma loop_body_frame:
  "fs (loop_body env len idx f st) = fs (passo env (fs st) f)"
  "arquivos_renomeados (loop_body env len idx f st) =
     arquivos_renomeados st @ arquivos_renomeados (passo env (fs st) f)"
  "resultados (loop_body env len idx f st) = resultados st @ resultados (passo env (fs st) f)"
proof -
  let ?i = "fst (extrair_info_comprovante env (fs st) f)"
  have a: "fs (loop_body env len idx f st) = fs (processar_pdf env f ?i (inicio (fs st)))"
    "arquivos_renomeados (loop_body env len idx f st) =
       arquivos_renomeados st @ arquivos_renomeados (processar_pdf env f ?i (inicio (fs st)))"
    "resultados (loop_body env len idx f st) =
       resultados st @ resultados (processar_pdf env f ?i (inicio (fs st)))"
    unfolding loop_body_def Let_def
    by (simp_all add: processar_pdf_frame(1) [where st = "_\<lparr>ui := _\<rparr>"]
        processar_pdf_frame(2) [where st = "_\<lparr>ui := _\<rparr>"]
        processar_pdf_frame(3) [where st = "_\<lparr>ui := _\<rparr>"])
  have b: "fs (passo env (fs st) f) = fs (processar_pdf env f ?i (inicio (fs st)))"
    "arquivos_renomeados (passo env (fs st) f) =
       arquivos_renomeados (processar_pdf env f ?i (inicio (fs st)))"
    "resultados (passo env (fs st) f) = resultados (processar_pdf env f ?i (inicio (fs st)))"
    unfolding passo_def loop_body_def Let_def
    by (simp_all add: processar_pdf_frame(1) [where st = "_\<lparr>ui := _\<rparr>"]
        processar_pdf_frame(2) [where st = "_\<lparr>ui := _\<rparr>"]
        processar_pdf_frame(3) [where st = "_\<lparr>ui := _\<rparr>"], simp_all add: inicio_def)
  show "fs (loop_body env len idx f st) = fs (passo env (fs st) f)"
    "arquivos_renomeados (loop_body env len idx f st) =
       arquivos_renomeados st @ arquivos_renomeados (passo env (fs st) f)"
    "resultados (loop_body env len idx f st) = resultados st @ resultados (passo env (fs st) f)"
    by (simp_all only: a b)
qed

text \<open>What one pass does, by the outcome of the extraction.\<close>

lemma passo_rename:
  assumes "files f = Some c" "alvo env c = Some t" "rename_refused env files f t = None"
  shows "fs (passo env files f) = (files(f := None))(t \<mapsto> c)"
    and "arquivos_renomeados (passo env files f) = [t]"
  using assms
  by (auto simp: passo_def loop_body_def Let_def inicio_def extrair_info_comprovante_def
      processar_pdf_def renomear_def os_rename_def alvo_def
      split: prod.splits option.splits sum.splits if_splits)

lemma passo_no_rename:
  assumes "\<not> (\<exists>c t. files f = Some c \<and> alvo env c = Some t \<and> rename_refused env files f t = None)"
  shows "fs (passo env files f) = files"
    and "arquivos_renomeados (passo env files f) = []"
  using assms
  by (auto simp: passo_def loop_body_def Let_def inicio_def extrair_info_comprovante_def
      processar_pdf_def renomear_def os_rename_def alvo_def
      split: prod.splits option.splits sum.splits if_splits)

lemma passo_one_record: "length (resultados (passo env files f)) = 1"
  by (auto simp: passo_def loop_body_def Let_def inicio_def extrair_info_comprovante_def
      processar_pdf_def renomear_def
      split: prod.splits option.splits sum.splits if_splits)

lemma after_Nil:
  "dir_after env files [] = files"
  "renomeados_after env files [] = []"
  "resultados_after env files [] = []"
  by (simp_all add: dir_after_def renomeados_after_def resultados_after_def inicio_def)

lemma run_loop_frame:
  "fs (run_loop env len idx xs st) = dir_after env (fs st) xs \<and>
   arquivos_renomeados (run_loop env len idx xs st) =
     arquivos_renomeados st @ renomeados_after env (fs st) xs \<and>
   resultados (run_loop env len idx xs st) = resultados st @ resultados_after env (fs st) xs"
proof (induction xs arbitrary: st len idx)
  case Nil
  show ?case by (simp add: after_Nil)
next
  case (Cons f xs)
  let ?s1 = "loop_body env len idx f st"
  let ?p = "passo env (fs st) f"
  have s1: "fs ?s1 = fs ?p"
    "arquivos_renomeados ?s1 = arquivos_renomeados st @ arquivos_renomeados ?p"
    "resultados ?s1 = resultados st @ resultados ?p"
    by (rule loop_body_frame)+
  have l: "fs (run_loop env len (Suc idx) xs ?s1) = dir_after env (fs ?p) xs"
    "arquivos_renomeados (run_loop env len (Suc idx) xs ?s1) =
       (arquivos_renomeados st @ arquivos_renomeados ?p) @ renomeados_after env (fs ?p) xs"
    "resultados (run_loop env len (Suc idx) xs ?s1) =
       (resultados st @ resultados ?p) @ resultados_after env (fs ?p) xs"
    using Cons.IH [of len "Suc idx" ?s1] by (simp_all only: s1)
  have r: "fs (run_loop env 0 (Suc 0) xs ?p) = dir_after env (fs ?p) xs"
    "arquivos_renomeados (run_loop env 0 (Suc 0) xs ?p) =
       arquivos_renomeados ?p @ renomeados_after env (fs ?p) xs"
    "resultados (run_loop env 0 (Suc 0) xs ?p) = resultados ?p @ resultados_after env (fs ?p) xs"
    using Cons.IH [of 0 "Suc 0" ?p] by simp_all
  have d: "dir_after env (fs st) (f # xs) = dir_after env (fs ?p) xs"
    "renomeados_after env (fs st) (f # xs) =
       arquivos_renomeados ?p @ renomeados_after env (fs ?p) xs"
    "resultados_after env (fs st) (f # xs) = resultados ?p @ resultados_after env (fs ?p) xs"
    unfolding dir_after_def [of env "fs st"] renomeados_after_def [of env "fs st"]
      resultados_after_def [of env "fs st"] run_loop.simps passo_def [symmetric]
    by (rule r)+
  show ?case
    unfolding run_loop.simps by (simp only: l d append_assoc simp_thms)
qed

lemma after_Cons:
  "dir_after env files (f # xs) = dir_after env (fs (passo env files f)) xs"
  "renomeados_after env files (f # xs) =
     arquivos_renomeados (passo env files f) @ renomeados_after env (fs (passo env files f)) xs"
  "resultados_after env files (f # xs) =
     resultados (passo env files f) @ resultados_after env (fs (passo env files f)) xs"
  unfolding dir_after_def [of env files] renomeados_after_def [of env files]
    resultados_after_def [of env files] run_loop.simps passo_def [symmetric]
  using run_loop_frame [of env 0 "Suc 0" xs "passo env files f"] by simp_all

lemma after_append:
  "dir_after env files (xs @ ys) = dir_after env (dir_after env files xs) ys \<and>
   renomeados_after env files (xs @ ys) =
     renomeados_after env files xs @ renomeados_after env (dir_after env files xs) ys \<and>
   resultados_after env files (xs @ ys) =
     resultados_after env files xs @ resultados_after env (dir_after env files xs) ys"
  by (induction xs arbitrary: files) (simp_all add: after_Nil after_Cons)

lemma length_resultados_after: "length (resultados_after env files xs) = length xs"
  by (induction xs arbitrary: files) (simp_all add: after_Nil after_Cons passo_one_record)

lemma passo_cases:
  "(\<exists>c t. files f = Some c \<and> alvo env c = Some t \<and>
      fs (passo env files f) = (files(f := None))(t \<mapsto> c) \<and>
      arquivos_renomeados (passo env files f) = [t]) \<or>
   (fs (passo env files f) = files \<and> arquivos_renomeados (passo env files f) = [])"
proof (cases "\<exists>c t. files f = Some c \<and> alvo env c = Some t \<and> rename_refused env files f t = None")
  case True
  then obtain c t where "files f = Some c" "alvo env c = Some t"
    "rename_refused env files f t = None" by blast
  then show ?thesis using passo_rename [of files f c env t] by blast
next
  case False
  then show ?thesis using passo_no_rename [of files f env] by blast
qed

lemma passo_coerente:
  assumes "coerente env files arqs"
  shows "coerente env (fs (passo env files f)) (arqs @ arquivos_renomeados (passo env files f))"
  using passo_cases [of files f env]
proof (elim disjE exE conjE)
  fix c t
  assume f: "files f = Some c" and a: "alvo env c = Some t"
    and n: "fs (passo env files f) = (files(f := None))(t \<mapsto> c)"
    and r: "arquivos_renomeados (passo env files f) = [t]"
  have "\<exists>c'. ((files(f := None))(t \<mapsto> c)) q = Some c' \<and> alvo env c' = Some q"
    if q: "q \<in> set (arqs @ [t])" for q
  proof (cases "q = t")
    case True
    then show ?thesis using a by simp
  next
    case False
    then have "q \<in> set arqs" using q by simp
    then obtain c' where c': "files q = Some c'" "alvo env c' = Some q"
      using assms by (auto simp: coerente_def)
    have "q \<noteq> f" using c' f a False by auto
    then show ?thesis using c' False by simp
  qed
  then show ?thesis by (simp only: coerente_def n r) blast
next
  assume "fs (passo env files f) = files" "arquivos_renomeados (passo env files f) = []"
  then show ?thesis using assms by simp
qed

lemma after_coerente:
  "coerente env files arqs \<Longrightarrow>
   coerente env (dir_after env files xs) (arqs @ renomeados_after env files xs)"
proof (induction xs arbitrary: files arqs)
  case Nil
  then show ?case by (simp add: after_Nil)
next
  case (Cons f xs)
  from Cons.IH [OF passo_coerente [OF Cons.prems, of f]]
  show ?case by (simp add: after_Cons)
qed

lemma renomeados_exist:
  "q \<in> set (renomeados_after env files xs) \<Longrightarrow>
   \<exists>c. dir_after env files xs q = Some c \<and> alvo env c = Some q"
  using after_coerente [of env files "[]" xs] by (simp add: coerente_def)

lemma zip_write_ok:
  "\<forall>q\<in>set arqs. files q \<noteq> None \<Longrightarrow>
   zip_write files arqs = Inr (map (\<lambda>q. (path_name q, the (files q))) arqs)"
  by (induction arqs) auto

lemma zip_write_after:
  "zip_write (dir_after env files xs) (renomeados_after env files xs) =
   Inr (map (\<lambda>q. (path_name q, the (dir_after env files xs q))) (renomeados_after env files xs))"
  by (rule zip_write_ok) (use renomeados_exist in fastforce)

lemma processar_zip_none:
  "rglob_pdf walk = [] \<Longrightarrow>
   processar_zip env files walk =
     Inr (None, [], [StWarning (lit ''Nenhum arquivo PDF encontrado no ZIP.'')])"
  by (simp add: processar_zip_def)

lemma processar_zip_some:
  assumes "rglob_pdf walk = xs" "xs \<noteq> []"
  shows "processar_zip env files walk =
     Inr (Some (arquivo_final env files xs), resultados_after env files xs,
          ui_final env files xs)"
proof -
  let ?st = "run_loop env (length xs) 0 xs
      \<lparr>fs = files, arquivos_renomeados = [], resultados = [], ui = [Progress 0 1]\<rparr>"
  have "fs ?st = dir_after env files xs"
    "arquivos_renomeados ?st = renomeados_after env files xs"
    "resultados ?st = resultados_after env files xs"
    using run_loop_frame [of env "length xs" 0 xs
        "\<lparr>fs = files, arquivos_renomeados = [], resultados = [], ui = [Progress 0 1]\<rparr>"]
    by simp_all
  then show ?thesis
    using assms
    by (simp add: processar_zip_def Let_def zip_write_after arquivo_final_def ui_final_def)
qed

lemma run_loop_append:
  "run_loop env len idx (xs @ ys) st =
   run_loop env len (idx + length xs) ys (run_loop env len idx xs st)"
  by (induction xs arbitrary: idx st) simp_all

lemma ui_loop_body:
  "set (ui st) \<union> set (snd (extrair_info_comprovante env (fs st) f))
     \<subseteq> set (ui (loop_body env len idx f st))"
  by (auto simp: loop_body_def Let_def processar_pdf_frame(4))

lemma ui_run_loop: "set (ui st) \<subseteq> set (ui (run_loop env len idx xs st))"
proof (induction xs arbitrary: idx st)
  case Nil
  show ?case by simp
next
  case (Cons f xs)
  have "set (ui st) \<subseteq> set (ui (loop_body env len idx f st))"
    using ui_loop_body [of st env f len idx] by blast
  also have "\<dots> \<subseteq> set (ui (run_loop env len (Suc idx) xs (loop_body env len idx f st)))"
    by (rule Cons.IH)
  finally show ?case by simp
qed

lemma ui_final_errors:
  "set (snd (extrair_info_comprovante env (dir_after env files pre) f))
     \<subseteq> set (ui_final env files (pre @ f # post))"
proof -
  let ?n = "length (pre @ f # post)"
  let ?s0 = "\<lparr>fs = files, arquivos_renomeados = [], resultados = [], ui = [Progress 0 1]\<rparr>"
  let ?s1 = "run_loop env ?n 0 pre ?s0"
  let ?s2 = "loop_body env ?n (length pre) f ?s1"
  have fs1: "fs ?s1 = dir_after env files pre"
    using run_loop_frame [of env ?n 0 pre ?s0] by simp
  have "run_loop env ?n 0 (pre @ f # post) ?s0 = run_loop env ?n (Suc (length pre)) post ?s2"
    by (simp add: run_loop_append)
  moreover have "set (snd (extrair_info_comprovante env (fs ?s1) f)) \<subseteq> set (ui ?s2)"
    using ui_loop_body [of ?s1 env f ?n "length pre"] by blast
  moreover have "set (ui ?s2) \<subseteq> set (ui (run_loop env ?n (Suc (length pre)) post ?s2))"
    by (rule ui_run_loop)
  ultimately show ?thesis
    unfolding ui_final_def fs1 by auto
qed

text \<open>The record of one pass.\<close>

lemma passo_resultados:
  "resultados (passo env files f) =
   resultados (processar_pdf env f (fst (extrair_info_comprovante env files f)) (inicio files))"
  unfolding passo_def loop_body_def Let_def
  by (simp add: processar_pdf_frame(3) [where st = "_\<lparr>ui := _\<rparr>"], simp add: inicio_def)

lemma passo_missing:
  assumes "fst (extrair_info_comprovante env files f) = (d, n, t)"
    and "d = None \<or> d = Some [] \<or> n = None \<or> n = Some []"
  shows "resultados (passo env files f) =
      [\<lparr>original = path_name f, novo_nome = lit ''-'', status = status_nao_encontradas,
        tipo = py_or t (lit ''Desconhecido''), data = py_or d (lit ''N/A''),
        destinatario = py_or n (lit ''N/A'')\<rparr>]"
    and "fs (passo env files f) = files"
    and "arquivos_renomeados (passo env files f) = []"
    and "files f = Some c \<Longrightarrow> alvo env c = None"
proof -
  show "resultados (passo env files f) =
      [\<lparr>original = path_name f, novo_nome = lit ''-'', status = status_nao_encontradas,
        tipo = py_or t (lit ''Desconhecido''), data = py_or d (lit ''N/A''),
        destinatario = py_or n (lit ''N/A'')\<rparr>]"
    using assms
    by (auto simp: passo_resultados processar_pdf_def nao_encontradas_def inicio_def
        split: option.splits)
  show c: "files f = Some c \<Longrightarrow> alvo env c = None" for c
    using assms
    by (auto simp: extrair_info_comprovante_def alvo_def split: sum.splits option.splits)
  have "\<not> (\<exists>c t. files f = Some c \<and> alvo env c = Some t \<and> rename_refused env files f t = None)"
    using c by fastforce
  then show "fs (passo env files f) = files" "arquivos_renomeados (passo env files f) = []"
    by (rule passo_no_rename)+
qed

lemma arquivo_final_alvo: "(nm, c) \<in> set (arquivo_final env files xs) \<Longrightarrow> alvo env c \<noteq> None"
  using renomeados_exist [of _ env files xs] by (fastforce simp: arquivo_final_def)

lemma after_snoc:
  "dir_after env files (pre @ [f]) = fs (passo env (dir_after env files pre) f)"
  "renomeados_after env files (pre @ [f]) =
     renomeados_after env files pre @ arquivos_renomeados (passo env (dir_after env files pre) f)"
  "resultados_after env files (pre @ [f]) =
     resultados_after env files pre @ resultados (passo env (dir_after env files pre) f)"
  by (simp_all add: after_append after_Cons after_Nil)

lemma after_mid:
  "resultados_after env files (pre @ f # post) =
     resultados_after env files pre @ resultados (passo env (dir_after env files pre) f) @
     resultados_after env (fs (passo env (dir_after env files pre) f)) post"
  "renomeados_after env files (pre @ f # post) =
     renomeados_after env files pre @
     arquivos_renomeados (passo env (dir_after env files pre) f) @
     renomeados_after env (fs (passo env (dir_after env files pre) f)) post"
  "dir_after env files (pre @ f # post) =
     dir_after env (fs (passo env (dir_after env files pre) f)) post"
  by (simp_all add: after_append after_Cons)


lemmas batch_eval =
  extrair_info_texto_def limpar_refines sanitize_spec_def invalidos_def boleto_def eval_defs

lemma info_jane_1:
  "extrair_info_texto jane_1 = (Some (lit ''19-12-2025''), Some (lit ''Jane Doe''), Some (lit ''Boleto''))"
  by (simp add: jane_1_def batch_eval)

lemma limpar_jane: "limpar_nome_arquivo (lit ''Jane Doe'') = lit ''Jane Doe''"
  by (simp add: batch_eval)

lemma alvo_jane_1: "alvo env_exemplo jane_1 = Some [lit ''19-12-2025 - Jane Doe.pdf'']"
proof -
  have "first_page_text env_exemplo jane_1 = Inr jane_1"
    by (simp add: env_exemplo_def jane_1_def boleto_def lit_def)
  then show ?thesis
    by (simp add: alvo_def info_jane_1 limpar_jane) (simp add: lit_def)
qed

lemma info_jane_2:
  "extrair_info_texto jane_2 = (Some (lit ''19-12-2025''), Some (lit ''Jane Doe''), Some (lit ''Boleto''))"
  by (simp add: jane_2_def batch_eval)

lemma alvo_jane_2: "alvo env_exemplo jane_2 = Some [lit ''19-12-2025 - Jane Doe.pdf'']"
proof -
  have "first_page_text env_exemplo jane_2 = Inr jane_2"
    by (simp add: env_exemplo_def jane_2_def boleto_def lit_def)
  then show ?thesis
    by (simp add: alvo_def info_jane_2 limpar_jane) (simp add: lit_def)
qed

lemma jane_differ: "jane_1 \<noteq> jane_2"
  by (simp add: jane_1_def jane_2_def boleto_def lit_def)

lemma rglob_dup: "rglob_pdf walk_dup = [[lit ''a.pdf''], [lit ''sub'', lit ''b.pdf'']]"
  by (simp add: rglob_pdf_def walk_dup_def endswith_def lit_def)

lemma never_refused: "rename_refused env_exemplo files src dst = None"
  by (simp add: env_exemplo_def)



lemma info_pix_sem_nome:
  "extrair_info_texto pix_sem_nome = (Some (lit ''19-12-2025''), None, Some (lit ''PIX''))"
  by (simp add: pix_sem_nome_def batch_eval)

text \<open>
  C3: a file \<open>f\<close> of the list, read when the files \<open>pre\<close> before it have been processed,
  for which the extraction gives no date or no payee (\<open>None\<close> or the empty string, which
  \<open>if data and destinatario\<close> treats alike). The function returns an archive and the
  records; the record of \<open>f\<close>, at its index, has \<open>novo_nome\<close> \<open>-\<close>, the status of missing
  information and \<open>N/A\<close> for each field that is \<open>None\<close>; the pass of \<open>f\<close> leaves the
  directory and \<open>arquivos_renomeados\<close> as they were, so \<open>f\<close> is not renamed; and no entry
  of the archive holds the content of \<open>f\<close>.
\<close>

theorem C3_missing_fields:
  assumes "rglob_pdf walk = pre @ f # post"
    and "extrair_info_comprovante env (dir_after env files pre) f = ((d, n, t), errs)"
    and "d = None \<or> d = Some [] \<or> n = None \<or> n = Some []"
  shows "\<exists>zs rs u. processar_zip env files walk = Inr (Some zs, rs, u) \<and>
     length rs = length (pre @ f # post) \<and>
     rs ! length pre =
       \<lparr>original = path_name f, novo_nome = lit ''-'',
        status = [0x26A0, 0xFE0F, 0x20] @ lit ''Informa'' @ [0xE7, 0xF5] @ lit ''es n'' @
                 [0xE3] @ lit ''o encontradas'',
        tipo = py_or t (lit ''Desconhecido''), data = py_or d (lit ''N/A''),
        destinatario = py_or n (lit ''N/A'')\<rparr> \<and>
     (d = None \<longrightarrow> data (rs ! length pre) = lit ''N/A'') \<and>
     (n = None \<longrightarrow> destinatario (rs ! length pre) = lit ''N/A'') \<and>
     dir_after env files (pre @ [f]) = dir_after env files pre \<and>
     renomeados_after env files (pre @ [f]) = renomeados_after env files pre \<and>
     (\<forall>c. dir_after env files pre f = Some c \<longrightarrow> c \<notin> snd ` set zs)"
proof -
  let ?D = "dir_after env files pre"
  let ?r = "\<lparr>original = path_name f, novo_nome = lit ''-'', status = status_nao_encontradas,
        tipo = py_or t (lit ''Desconhecido''), data = py_or d (lit ''N/A''),
        destinatario = py_or n (lit ''N/A'')\<rparr>"
  have e: "fst (extrair_info_comprovante env ?D f) = (d, n, t)"
    using assms(2) by simp
  note m = passo_missing [OF e assms(3)]
  have z: "processar_zip env files walk =
     Inr (Some (arquivo_final env files (pre @ f # post)),
          resultados_after env files (pre @ f # post), ui_final env files (pre @ f # post))"
    by (rule processar_zip_some) (simp_all add: assms(1))
  have len: "length (resultados_after env files pre) = length pre"
    by (rule length_resultados_after)
  have "resultados_after env files (pre @ f # post) =
      resultados_after env files pre @ ?r # resultados_after env ?D post"
    by (simp add: after_mid(1) m(1,2))
  then have nth: "resultados_after env files (pre @ f # post) ! length pre = ?r"
    using len by (simp add: nth_append)
  have notin: "c \<notin> snd ` set (arquivo_final env files (pre @ f # post))" if "?D f = Some c" for c
    using m(4) [OF that] arquivo_final_alvo [of _ c env files "pre @ f # post"] by auto
  have "py_or None (lit ''N/A'') = lit ''N/A''" by simp
  then show ?thesis
    using z nth notin m(2,3)
    by (simp add: length_resultados_after after_snoc status_nao_encontradas_def)
qed

theorem C3_missing_fields_witness:
  "rglob_pdf [[lit ''nota.pdf''], [lit ''a.pdf'']] = [] @ [lit ''nota.pdf''] # [[lit ''a.pdf'']] \<and>
   extrair_info_comprovante env_exemplo (dir_after env_exemplo dir_falta []) [lit ''nota.pdf'']
     = ((Some (lit ''19-12-2025''), None, Some (lit ''PIX'')), []) \<and>
   (\<exists>zs rs u. processar_zip env_exemplo dir_falta [[lit ''nota.pdf''], [lit ''a.pdf'']]
        = Inr (Some zs, rs, u) \<and>
      rs ! 0 = \<lparr>original = lit ''nota.pdf'', novo_nome = lit ''-'',
                status = [0x26A0, 0xFE0F, 0x20] @ lit ''Informa'' @ [0xE7, 0xF5] @
                         lit ''es n'' @ [0xE3] @ lit ''o encontradas'',
                tipo = lit ''PIX'', data = lit ''19-12-2025'', destinatario = lit ''N/A''\<rparr> \<and>
      pix_sem_nome \<notin> snd ` set zs)"
proof -
  have w: "rglob_pdf [[lit ''nota.pdf''], [lit ''a.pdf'']] = [] @ [lit ''nota.pdf''] # [[lit ''a.pdf'']]"
    by (simp add: rglob_pdf_def endswith_def lit_def)
  have c: "dir_falta [lit ''nota.pdf''] = Some pix_sem_nome"
    by (simp add: dir_falta_def lit_def)
  have t: "first_page_text env_exemplo pix_sem_nome = Inr pix_sem_nome"
    by (simp add: env_exemplo_def pix_sem_nome_def lit_def)
  have x: "extrair_info_comprovante env_exemplo (dir_after env_exemplo dir_falta []) [lit ''nota.pdf'']
     = ((Some (lit ''19-12-2025''), None, Some (lit ''PIX'')), [])"
    by (simp add: after_Nil extrair_info_comprovante_def c t info_pix_sem_nome)
  have p: "path_name [lit ''nota.pdf''] = lit ''nota.pdf''" by (simp add: path_name_def)
  have o: "py_or (Some (lit ''PIX'')) (lit ''Desconhecido'') = lit ''PIX''"
    "py_or (Some (lit ''19-12-2025'')) (lit ''N/A'') = lit ''19-12-2025''"
    by (simp_all add: lit_def)
  have h: "Some (lit ''19-12-2025'') = None \<or> Some (lit ''19-12-2025'') = Some [] \<or>
      (None :: str option) = None \<or> (None :: str option) = Some []"
    by simp
  from C3_missing_fields [OF w x h] obtain zs rs u where
    z: "processar_zip env_exemplo dir_falta [[lit ''nota.pdf''], [lit ''a.pdf'']] = Inr (Some zs, rs, u)"
    and r: "rs ! length ([] :: path list) =
       \<lparr>original = path_name [lit ''nota.pdf''], novo_nome = lit ''-'',
        status = [0x26A0, 0xFE0F, 0x20] @ lit ''Informa'' @ [0xE7, 0xF5] @ lit ''es n'' @
                 [0xE3] @ lit ''o encontradas'',
        tipo = py_or (Some (lit ''PIX'')) (lit ''Desconhecido''),
        data = py_or (Some (lit ''19-12-2025'')) (lit ''N/A''),
        destinatario = py_or None (lit ''N/A'')\<rparr>"
    and n: "\<forall>c. dir_after env_exemplo dir_falta [] [lit ''nota.pdf''] = Some c \<longrightarrow> c \<notin> snd ` set zs"
    by (elim exE conjE)
  have "pix_sem_nome \<notin> snd ` set zs"
    using n c by (simp add: after_Nil)
  moreover have "rs ! 0 = \<lparr>original = lit ''nota.pdf'', novo_nome = lit ''-'',
                status = [0x26A0, 0xFE0F, 0x20] @ lit ''Informa'' @ [0xE7, 0xF5] @
                         lit ''es n'' @ [0xE3] @ lit ''o encontradas'',
                tipo = lit ''PIX'', data = lit ''19-12-2025'', destinatario = lit ''N/A''\<rparr>"
    using r by (simp add: path_name_def lit_def)
  ultimately show ?thesis
    using w x z by (intro conjI exI)
qed

text \<open>
  C5: a file \<open>f\<close> of the list whose content makes the extraction of the page text raise
  (\<open>first_page_text\<close> gives \<open>Inl e\<close>). \<open>extrair_info_comprovante\<close> reports the error with
  \<open>st.error\<close> and returns \<open>(None, None, None)\<close>; the run still returns an archive and the
  records, the error among the calls on the user interface; and against the run on the
  same directory whose list lacks \<open>f\<close> (\<open>walk'\<close>), the records are the same with one
  record for \<open>f\<close> inserted at its index (unknown type, \<open>N/A\<close> date and payee), and the
  entries of the archive are the same.
\<close>

theorem C5_failure_isolated:
  assumes "rglob_pdf walk = pre @ f # post" and "rglob_pdf walk' = pre @ post"
    and "dir_after env files pre f = Some c" and "first_page_text env c = Inl e"
  shows "extrair_info_comprovante env (dir_after env files pre) f =
       ((None, None, None), [StError (lit ''Erro ao processar PDF: '' @ e)]) \<and>
     (\<exists>zs rs u zs' rs' u'.
        processar_zip env files walk = Inr (Some zs, rs, u) \<and>
        processar_zip env files walk' = Inr (zs', rs', u') \<and>
        StError (lit ''Erro ao processar PDF: '' @ e) \<in> set u \<and>
        length rs' = length pre + length post \<and>
        rs = take (length pre) rs' @
             [\<lparr>original = path_name f, novo_nome = lit ''-'',
               status = [0x26A0, 0xFE0F, 0x20] @ lit ''Informa'' @ [0xE7, 0xF5] @
                        lit ''es n'' @ [0xE3] @ lit ''o encontradas'',
               tipo = lit ''Desconhecido'', data = lit ''N/A'',
               destinatario = lit ''N/A''\<rparr>] @
             drop (length pre) rs' \<and>
        (zs' = Some zs \<or> zs' = None \<and> zs = []))"
proof -
  let ?D = "dir_after env files pre"
  let ?r = "\<lparr>original = path_name f, novo_nome = lit ''-'', status = status_nao_encontradas,
        tipo = lit ''Desconhecido'', data = lit ''N/A'', destinatario = lit ''N/A''\<rparr>"
  have x: "extrair_info_comprovante env ?D f =
       ((None, None, None), [StError (lit ''Erro ao processar PDF: '' @ e)])"
    using assms(3,4) by (simp add: extrair_info_comprovante_def)
  then have e: "fst (extrair_info_comprovante env ?D f) = (None, None, None)" by simp
  have m: "resultados (passo env ?D f) = [?r]" "fs (passo env ?D f) = ?D"
    "arquivos_renomeados (passo env ?D f) = []"
    using passo_missing(1-3) [OF e] by simp_all
  have z: "processar_zip env files walk =
     Inr (Some (arquivo_final env files (pre @ f # post)),
          resultados_after env files (pre @ f # post), ui_final env files (pre @ f # post))"
    by (rule processar_zip_some) (simp_all add: assms(1))
  have len: "length (resultados_after env files pre) = length pre"
    by (rule length_resultados_after)
  have rs: "resultados_after env files (pre @ f # post) =
      resultados_after env files pre @ [?r] @ resultados_after env ?D post"
    by (simp add: after_mid(1) m)
  have rs': "resultados_after env files (pre @ post) =
      resultados_after env files pre @ resultados_after env ?D post"
    by (simp add: after_append)
  have d1: "dir_after env files (pre @ f # post) = dir_after env ?D post"
    "renomeados_after env files (pre @ f # post) =
       renomeados_after env files pre @ renomeados_after env ?D post"
    by (simp_all add: after_mid m)
  have d2: "dir_after env files (pre @ post) = dir_after env ?D post"
    "renomeados_after env files (pre @ post) =
       renomeados_after env files pre @ renomeados_after env ?D post"
    by (simp_all add: after_append)
  have arq: "arquivo_final env files (pre @ f # post) = arquivo_final env files (pre @ post)"
    by (simp only: arquivo_final_def d1 d2)
  have err: "StError (lit ''Erro ao processar PDF: '' @ e) \<in> set (ui_final env files (pre @ f # post))"
    using ui_final_errors [of env files pre f post] x by simp
  have td: "take (length pre) (resultados_after env files (pre @ post)) = resultados_after env files pre"
    "drop (length pre) (resultados_after env files (pre @ post)) = resultados_after env ?D post"
    using len by (simp_all add: rs')
  show ?thesis
  proof (cases "pre @ post = []")
    case True
    then have p: "pre = []" "post = []" by simp_all
    have "processar_zip env files walk' =
        Inr (None, [], [StWarning (lit ''Nenhum arquivo PDF encontrado no ZIP.'')])"
      by (rule processar_zip_none) (simp add: assms(2) p)
    moreover have "arquivo_final env files [f] = []"
      using arq by (simp add: p arquivo_final_def after_Nil)
    ultimately show ?thesis
      using x z err rs unfolding p
      by (simp add: after_Nil status_nao_encontradas_def)
  next
    case False
    have "processar_zip env files walk' =
        Inr (Some (arquivo_final env files (pre @ post)),
          resultados_after env files (pre @ post), ui_final env files (pre @ post))"
      by (rule processar_zip_some [OF assms(2) False])
    then show ?thesis
      using x z err rs td arq
      by (simp add: length_resultados_after status_nao_encontradas_def)
  qed
qed

theorem C5_failure_isolated_witness:
  "rglob_pdf [[lit ''x.pdf''], [lit ''a.pdf'']] = [] @ [lit ''x.pdf''] # [[lit ''a.pdf'']] \<and>
   rglob_pdf [[lit ''a.pdf'']] = [] @ [[lit ''a.pdf'']] \<and>
   dir_after env_exemplo dir_corrompido [] [lit ''x.pdf''] = Some (lit ''%PDF-1.4 truncated'') \<and>
   first_page_text env_exemplo (lit ''%PDF-1.4 truncated'')
     = Inl (lit ''No /Root object! - Is this really a PDF?'') \<and>
   (\<exists>zs rs u zs' rs' u'.
      processar_zip env_exemplo dir_corrompido [[lit ''x.pdf''], [lit ''a.pdf'']]
        = Inr (Some zs, rs, u) \<and>
      processar_zip env_exemplo dir_corrompido [[lit ''a.pdf'']] = Inr (zs', rs', u') \<and>
      StError (lit ''Erro ao processar PDF: No /Root object! - Is this really a PDF?'') \<in> set u \<and>
      length rs' = 1 \<and>
      rs = \<lparr>original = lit ''x.pdf'', novo_nome = lit ''-'',
              status = [0x26A0, 0xFE0F, 0x20] @ lit ''Informa'' @ [0xE7, 0xF5] @
                       lit ''es n'' @ [0xE3] @ lit ''o encontradas'',
              tipo = lit ''Desconhecido'', data = lit ''N/A'', destinatario = lit ''N/A''\<rparr> # rs')"
proof -
  have w: "rglob_pdf [[lit ''x.pdf''], [lit ''a.pdf'']] = [] @ [lit ''x.pdf''] # [[lit ''a.pdf'']]"
    by (simp add: rglob_pdf_def endswith_def lit_def)
  have w': "rglob_pdf [[lit ''a.pdf'']] = [] @ [[lit ''a.pdf'']]"
    by (simp add: rglob_pdf_def endswith_def lit_def)
  have c: "dir_after env_exemplo dir_corrompido [] [lit ''x.pdf''] = Some (lit ''%PDF-1.4 truncated'')"
    by (simp add: after_Nil dir_corrompido_def lit_def)
  have t: "first_page_text env_exemplo (lit ''%PDF-1.4 truncated'')
     = Inl (lit ''No /Root object! - Is this really a PDF?'')"
    by (simp add: env_exemplo_def)
  from C5_failure_isolated [OF w w' c t] obtain zs rs u zs' rs' u' where
    z: "processar_zip env_exemplo dir_corrompido [[lit ''x.pdf''], [lit ''a.pdf'']]
        = Inr (Some zs, rs, u)"
    and z': "processar_zip env_exemplo dir_corrompido [[lit ''a.pdf'']] = Inr (zs', rs', u')"
    and e: "StError (lit ''Erro ao processar PDF: '' @
              lit ''No /Root object! - Is this really a PDF?'') \<in> set u"
    and l: "length rs' = length ([] :: path list) + length [[lit ''a.pdf'']]"
    and r: "rs = take (length ([] :: path list)) rs' @
             [\<lparr>original = path_name [lit ''x.pdf''], novo_nome = lit ''-'',
               status = [0x26A0, 0xFE0F, 0x20] @ lit ''Informa'' @ [0xE7, 0xF5] @
                        lit ''es n'' @ [0xE3] @ lit ''o encontradas'',
               tipo = lit ''Desconhecido'', data = lit ''N/A'',
               destinatario = lit ''N/A''\<rparr>] @
             drop (length ([] :: path list)) rs'"
    by (elim exE conjE)
  have e': "StError (lit ''Erro ao processar PDF: No /Root object! - Is this really a PDF?'') \<in> set u"
    using e by (simp add: lit_def)
  have l': "length rs' = 1" using l by simp
  have r': "rs = \<lparr>original = lit ''x.pdf'', novo_nome = lit ''-'',
              status = [0x26A0, 0xFE0F, 0x20] @ lit ''Informa'' @ [0xE7, 0xF5] @
                       lit ''es n'' @ [0xE3] @ lit ''o encontradas'',
              tipo = lit ''Desconhecido'', data = lit ''N/A'', destinatario = lit ''N/A''\<rparr> # rs'"
    using r by (simp add: path_name_def)
  show ?thesis
    using w w' c t z z' e' l' r' by (intro conjI exI)
qed




text \<open>
  C1: two distinct files with the same date and payee. On the directory \<open>dir_dup\<close>, where
  \<open>a.pdf\<close> and \<open>sub/b.pdf\<close> are receipts of 19/12/2025 for Jane Doe, the archive that
  \<open>processar_zip\<close> returns has two entries named \<^verbatim>\<open>19-12-2025 - Jane Doe.pdf\<close>, both
  with the content of the file processed last: the second rename replaces the first
  file in the directory, the loop appends the target path to \<open>arquivos_renomeados\<close> once
  per renamed file, and \<open>ZipFile.write\<close> adds an entry for each. The help text of the
  application (line 302) says that such files overwrite each other.
\<close>

theorem C1_duplicate_entries:
  "jane_1 \<noteq> jane_2 \<and>
   map_sum id fst (processar_zip env_exemplo dir_dup walk_dup) =
     Inr (Some [(lit ''19-12-2025 - Jane Doe.pdf'', jane_2),
                (lit ''19-12-2025 - Jane Doe.pdf'', jane_2)])"
proof -
  let ?a = "[lit ''a.pdf'']" and ?b = "[lit ''sub'', lit ''b.pdf'']"
  let ?t = "[lit ''19-12-2025 - Jane Doe.pdf'']"
  let ?d1 = "(dir_dup(?a := None))(?t \<mapsto> jane_1)"
  let ?d2 = "(?d1(?b := None))(?t \<mapsto> jane_2)"
  have a: "dir_dup ?a = Some jane_1"
    by (simp add: dir_dup_def lit_def)
  have p1: "fs (passo env_exemplo dir_dup ?a) = ?d1"
    "arquivos_renomeados (passo env_exemplo dir_dup ?a) = [?t]"
    by (rule passo_rename [OF a alvo_jane_1 never_refused [of dir_dup ?a ?t]])+
  have b: "?d1 ?b = Some jane_2"
    by (simp add: dir_dup_def lit_def)
  have p2: "fs (passo env_exemplo ?d1 ?b) = ?d2"
    "arquivos_renomeados (passo env_exemplo ?d1 ?b) = [?t]"
    by (rule passo_rename [OF b alvo_jane_2 never_refused [of ?d1 ?b ?t]])+
  have "dir_after env_exemplo dir_dup [?a, ?b] = ?d2"
    "renomeados_after env_exemplo dir_dup [?a, ?b] = [?t, ?t]"
    by (simp_all only: after_Cons after_Nil p1 p2 append_Cons append_Nil)
  then have "arquivo_final env_exemplo dir_dup [?a, ?b] =
      [(lit ''19-12-2025 - Jane Doe.pdf'', jane_2), (lit ''19-12-2025 - Jane Doe.pdf'', jane_2)]"
    by (simp add: arquivo_final_def path_name_def)
  then show ?thesis
    using processar_zip_some [OF rglob_dup, of env_exemplo dir_dup] jane_differ by simp
qed

end
